theory Spec2Isabelle
  imports Main "HOL-Library.Multiset"
begin

section \<open>TenantDropdown: the tenant selector of the layout header\<close>

text \<open>
  A shallow embedding of
  \<^verbatim>\<open>modules/web/web-app/components/layouts/shared/LayoutHeader/TenantDropdown.tsx\<close>.

  The component is a function of the values its hooks return in one render
  (\<^verbatim>\<open>useQuery(listTenants)\<close>, \<^verbatim>\<open>useTenant()\<close>, \<^verbatim>\<open>useOrganizationSlug()\<close>,
  \<^verbatim>\<open>useState(false)\<close>). It returns the element tree of its JSX, the array of the
  query layer as the render leaves it (\<^verbatim>\<open>Array.prototype.sort\<close> sorts in place), and
  the dependency list of its effect. React's part (running the effect when a dependency
  changed, applying \<^verbatim>\<open>setOpen\<close>) is the step function \<open>react_step\<close>.
\<close>

subsection \<open>Data\<close>

text \<open>
  The fields of a tenant message that the component reads: \<^verbatim>\<open>id\<close>, \<^verbatim>\<open>name\<close>,
  \<^verbatim>\<open>slug\<close>. (\<open>id\<close> is the identity function of HOL, so the field is \<open>tenant_id\<close>.)
\<close>

record tenant =
  tenant_id :: string
  name :: string
  slug :: string

text \<open>
  A JavaScript object as React's dependency comparison sees it: an identity and a
  content. \<^verbatim>\<open>Object.is\<close> on two objects compares the identities only.
\<close>

datatype 'a js_object = Object (address: nat) (contents: 'a)

fun object_is :: "'a js_object option \<Rightarrow> 'a js_object option \<Rightarrow> bool" where
  "object_is None None = True"
| "object_is (Some a) (Some b) = (address a = address b)"
| "object_is _ _ = False"

text \<open>
  What the hooks return in one render. \<open>listTenants_data\<close> is
  \<^verbatim>\<open>useQuery(listTenants).data?.tenants\<close>: \<open>None\<close> when the query has no data (it
  failed or has not completed), otherwise the array held by the query layer.
\<close>

record hooks =
  listTenants_data :: "tenant list option"
  useTenant :: "tenant js_object option"
  useOrganizationSlug :: string

subsection \<open>Element trees\<close>

datatype callback = SetOpen

datatype prop_value = Str string | Bool bool | Fn callback

datatype jsx = Element string "(string \<times> prop_value) list" "jsx list" | Text string

fun tag :: "jsx \<Rightarrow> string" where
  "tag (Element n ps cs) = n"
| "tag (Text s) = []"

fun props :: "jsx \<Rightarrow> (string \<times> prop_value) list" where
  "props (Element n ps cs) = ps"
| "props (Text s) = []"

fun children :: "jsx \<Rightarrow> jsx list" where
  "children (Element n ps cs) = cs"
| "children (Text s) = []"

text \<open>All elements with a given tag, and all text nodes, in document order.\<close>

fun elements_named :: "string \<Rightarrow> jsx \<Rightarrow> jsx list" where
  "elements_named t (Element n ps cs) =
     (if n = t then [Element n ps cs] else []) @ concat (map (elements_named t) cs)"
| "elements_named t (Text s) = []"

fun texts :: "jsx \<Rightarrow> string list" where
  "texts (Element n ps cs) = concat (map texts cs)"
| "texts (Text s) = [s]"

definition string_prop :: "string \<Rightarrow> jsx \<Rightarrow> string option" where
  "string_prop k e = (case map_of (props e) k of Some (Str s) \<Rightarrow> Some s | _ \<Rightarrow> None)"

definition bool_prop :: "string \<Rightarrow> jsx \<Rightarrow> bool option" where
  "bool_prop k e = (case map_of (props e) k of Some (Bool b) \<Rightarrow> Some b | _ \<Rightarrow> None)"

subsection \<open>The array sort\<close>

text \<open>
  \<^verbatim>\<open>Array.prototype.sort(comparefn)\<close> is a builtin of the language: stable, and for a
  consistent comparator the result is the sorted permutation. It is modelled by the
  stable insertion sort: an element goes before the first one it does not compare
  greater than.
\<close>

fun insert_sorted :: "('a \<Rightarrow> 'a \<Rightarrow> int) \<Rightarrow> 'a \<Rightarrow> 'a list \<Rightarrow> 'a list" where
  "insert_sorted comparefn x [] = [x]"
| "insert_sorted comparefn x (y # ys) =
     (if comparefn x y \<le> 0 then x # y # ys else y # insert_sorted comparefn x ys)"

fun sort_array :: "('a \<Rightarrow> 'a \<Rightarrow> int) \<Rightarrow> 'a list \<Rightarrow> 'a list" where
  "sort_array comparefn [] = []"
| "sort_array comparefn (x # xs) = insert_sorted comparefn x (sort_array comparefn xs)"

text \<open>
  \<^verbatim>\<open>String.prototype.localeCompare\<close> is a builtin too, and depends on the locale of the
  host: the component takes it as the parameter \<open>localeCompare\<close> (negative, zero or
  positive). What the sort needs of it is that it is a consistent comparator.
\<close>

definition consistent_comparator :: "(string \<Rightarrow> string \<Rightarrow> int) \<Rightarrow> bool" where
  "consistent_comparator localeCompare =
     ((\<forall>a b. (localeCompare a b < 0) = (0 < localeCompare b a)) \<and>
      (\<forall>a b c. localeCompare a b \<le> 0 \<and> localeCompare b c \<le> 0 \<longrightarrow> localeCompare a c \<le> 0))"

text \<open>
  One such comparator, for evaluating the component on concrete inputs: the
  lexicographic order of the character codes.
\<close>

fun code_compare :: "string \<Rightarrow> string \<Rightarrow> int" where
  "code_compare [] [] = 0"
| "code_compare [] (b # bs) = - 1"
| "code_compare (a # as) [] = 1"
| "code_compare (a # as) (b # bs) =
     (if (of_char a :: nat) < of_char b then - 1
      else if (of_char b :: nat) < of_char a then 1
      else code_compare as bs)"

subsection \<open>The component\<close>

text \<open>The comparator of line 47: \<^verbatim>\<open>(a, b) => a.name.localeCompare(b.name)\<close>.\<close>

definition by_name :: "(string \<Rightarrow> string \<Rightarrow> int) \<Rightarrow> tenant \<Rightarrow> tenant \<Rightarrow> int" where
  "by_name localeCompare a b = localeCompare (name a) (name b)"

text \<open>Lines 49 to 51: the row of one tenant.\<close>

definition tenant_row :: "string \<Rightarrow> tenant \<Rightarrow> jsx" where
  "tenant_row org t =
     Element ''Link'' [(''key'', Str (tenant_id t)), (''to'', Str (''/'' @ org @ ''/'' @ slug t))]
       [Element ''CommandItem'' [(''key'', Str (tenant_id t))] [Text (name t)]]"

text \<open>Lines 54 to 60: the item that links to the creation of a tenant.\<close>

definition new_tenant_item :: "string \<Rightarrow> jsx" where
  "new_tenant_item org =
     Element ''CommandItem'' []
       [Element ''Link'' [(''to'', Str (''/'' @ org @ ''/tenants/new'')), (''className'', Str ''w-full'')]
          [Element ''Button'' [(''size'', Str ''content''), (''variant'', Str ''ghost''), (''hasIcon'', Bool True)]
             [Element ''PlusIcon'' [(''size'', Str ''12'')] [], Text '' New tenant'']]]"

text \<open>
  Lines 34 to 41: the trigger. \<^verbatim>\<open>{tenant?.name}\<close> is \<^verbatim>\<open>undefined\<close> when there is no
  active tenant, and React renders nothing for it.
\<close>

definition trigger :: "tenant js_object option \<Rightarrow> jsx" where
  "trigger tenant =
     Element ''PopoverTrigger''
       [(''className'', Str ''h-9 px-4 py-2 rounded-full border border-border bg-background dark:border-0 dark:bg-secondary hover:bg-accent dark:hover:bg-accent '')]
       [Element ''div'' [(''className'', Str ''flex flex-row space-x-2 items-center '')]
          [Element ''span'' [(''className'', Str ''text-xs text-muted-foreground'')] [Text ''Tenant: ''],
           Element ''span'' [(''className'', Str '' rounded-full p-1 bg-cyan-600'')] [],
           Element ''span'' [] (case tenant of None \<Rightarrow> [] | Some t \<Rightarrow> [Text (name (contents t))]),
           Element ''ChevronsUpDownIcon'' [(''size'', Str ''10'')] []]]"

text \<open>
  The result of one render: the element tree, the array of the query layer after the
  render, and the dependencies of the effect of lines 28 to 30 (whose body is
  \<^verbatim>\<open>setOpen(false)\<close>).
\<close>

record render_result =
  element :: jsx
  query_tenants :: "tenant list option"
  effect_deps :: "tenant js_object option"

text \<open>
  Line 21: \<^verbatim>\<open>tenants\<close> is the array of the query layer itself when there is one, and a
  fresh empty array otherwise. Line 47 sorts \<^verbatim>\<open>tenants\<close> in place and maps over the
  result, so with data the query layer's array is the sorted one after the render;
  without data the query layer is not touched.
\<close>

definition TenantDropdown :: "(string \<Rightarrow> string \<Rightarrow> int) \<Rightarrow> hooks \<Rightarrow> bool \<Rightarrow> render_result" where
  "TenantDropdown localeCompare h open' =
     (let tenants = (case listTenants_data h of Some ts \<Rightarrow> ts | None \<Rightarrow> []);
          tenant = useTenant h;
          org = useOrganizationSlug h;
          sorted_tenants = sort_array (by_name localeCompare) tenants
      in \<lparr> element =
             Element ''Popover'' [(''open'', Bool open'), (''onOpenChange'', Fn SetOpen)]
               [trigger tenant,
                Element ''PopoverContent'' [(''className'', Str ''w-[200px] p-0'')]
                  [Element ''Command'' []
                     [Element ''CommandEmpty'' [] [Text ''No tenant found.''],
                      Element ''CommandList'' [] (map (tenant_row org) sorted_tenants),
                      new_tenant_item org]]],
           query_tenants =
             (case listTenants_data h of Some ts \<Rightarrow> Some sorted_tenants | None \<Rightarrow> None),
           effect_deps = tenant \<rparr>)"

subsection \<open>The component instance under React\<close>

text \<open>
  The memory React keeps for a mounted instance: the cell of \<^verbatim>\<open>useState\<close> and the
  dependencies the effect last ran with. (\<open>open\<close> is a keyword of Isabelle, so the flag
  is \<open>open'\<close>.)
\<close>

record fiber =
  open' :: bool
  last_deps :: "tenant js_object option"

text \<open>
  Mounting: the first render sees the initial value of \<^verbatim>\<open>useState(false)\<close>; effects
  always run after the first render.
\<close>

definition run_effect :: "fiber \<Rightarrow> render_result \<Rightarrow> fiber" where
  "run_effect s r = s\<lparr>open' := False, last_deps := effect_deps r\<rparr>"

definition mount :: "(string \<Rightarrow> string \<Rightarrow> int) \<Rightarrow> hooks \<Rightarrow> render_result \<times> fiber" where
  "mount localeCompare h =
     (let initial = False;
          r = TenantDropdown localeCompare h initial
      in (r, run_effect \<lparr>open' = initial, last_deps = effect_deps r\<rparr> r))"

text \<open>
  After the mount, the instance renders again with new hook values, or the popover
  reports a change of visibility through \<^verbatim>\<open>onOpenChange={setOpen}\<close>. After a render
  React runs the effect if \<^verbatim>\<open>Object.is\<close> tells the dependency from the last one.
\<close>

datatype event = Render hooks | OnOpenChange bool

fun react_step :: "(string \<Rightarrow> string \<Rightarrow> int) \<Rightarrow> event \<Rightarrow> fiber \<Rightarrow> fiber" where
  "react_step localeCompare (Render h) s =
     (let r = TenantDropdown localeCompare h (open' s)
      in if object_is (last_deps s) (effect_deps r) then s else run_effect s r)"
| "react_step localeCompare (OnOpenChange b) s = s\<lparr>open' := b\<rparr>"

text \<open>What a claim about the rendered rows reads off the tree.\<close>

definition fetched :: "hooks \<Rightarrow> tenant list" where
  "fetched h = (case listTenants_data h of Some ts \<Rightarrow> ts | None \<Rightarrow> [])"

definition rendered_rows :: "jsx \<Rightarrow> jsx list" where
  "rendered_rows e = concat (map children (elements_named ''CommandList'' e))"

definition row_key :: "jsx \<Rightarrow> string option" where
  "row_key r = string_prop ''key'' r"

definition row_label :: "jsx \<Rightarrow> string" where
  "row_label r = concat (texts r)"

definition link_to :: "jsx \<Rightarrow> string option" where
  "link_to r = (if tag r = ''Link'' then string_prop ''to'' r else None)"

text \<open>
  The links to the creation of a tenant: the \<^verbatim>\<open>Link\<close> elements around a button
  labelled \<^verbatim>\<open>New tenant\<close>.
\<close>

definition new_tenant_links :: "jsx \<Rightarrow> jsx list" where
  "new_tenant_links e =
     filter (\<lambda>l. concat (map texts (elements_named ''Button'' l)) = ['' New tenant''])
       (elements_named ''Link'' e)"

definition command_items :: "jsx \<Rightarrow> jsx list" where
  "command_items e =
     filter (\<lambda>c. tag c = ''CommandItem'') (concat (map children (elements_named ''Command'' e)))"

text \<open>
  \<open>a\<close> appears before \<open>b\<close> in a list: both occur, and from the first \<open>b\<close> on there
  is no \<open>a\<close>.
\<close>

definition appears_before :: "'a \<Rightarrow> 'a \<Rightarrow> 'a list \<Rightarrow> bool" where
  "appears_before a b xs =
     (a \<in> set xs \<and> b \<in> set xs \<and> a \<notin> set (dropWhile (\<lambda>x. x \<noteq> b) xs))"

text \<open>The text the trigger shows for the active tenant.\<close>

definition trigger_name :: "hooks \<Rightarrow> string list" where
  "trigger_name h = (case useTenant h of None \<Rightarrow> [] | Some t \<Rightarrow> [name (contents t)])"

text \<open>Two tenants in the order the backend may return them, for concrete renders.\<close>

definition tenant_b :: tenant where
  "tenant_b = \<lparr>tenant_id = ''1'', name = ''b'', slug = ''beta''\<rparr>"

definition tenant_a :: tenant where
  "tenant_a = \<lparr>tenant_id = ''2'', name = ''a'', slug = ''alpha''\<rparr>"

definition example_hooks :: hooks where
  "example_hooks =
     \<lparr>listTenants_data = Some [tenant_b, tenant_a],
      useTenant = Some (Object 7 tenant_b),
      useOrganizationSlug = ''acme''\<rparr>"

text \<open>
  What the command menu displays of its placeholder. \<^verbatim>\<open>CommandEmpty\<close> is the
  \<^verbatim>\<open>Command.Empty\<close> of the cmdk library, which renders its children only while the
  \<^verbatim>\<open>Command\<close> around it holds no item that matches the search; the component has no
  search input, so every \<^verbatim>\<open>CommandItem\<close> inside the \<^verbatim>\<open>Command\<close> counts.
  \<open>shown_placeholders\<close> are the texts of the placeholders that are displayed.
\<close>

definition shown_placeholders :: "jsx \<Rightarrow> string list" where
  "shown_placeholders e =
     concat (map (\<lambda>c. if elements_named ''CommandItem'' c = []
                        then concat (map texts (elements_named ''CommandEmpty'' c))
                        else [])
               (elements_named ''Command'' e))"

section \<open>Properties\<close>

lemma mset_insert_sorted: "mset (insert_sorted f x ys) = add_mset x (mset ys)"
  by (induction ys) simp_all

lemma mset_sort_array: "mset (sort_array f xs) = mset xs"
  by (induction xs) (simp_all add: mset_insert_sorted)

subsection \<open>The sort returns the sorted permutation\<close>

lemma set_insert_sorted: "set (insert_sorted f x ys) = insert x (set ys)"
  by (induction ys) auto

lemma set_sort_array: "set (sort_array f xs) = set xs"
  by (induction xs) (simp_all add: set_insert_sorted)

lemma length_sort_array: "length (sort_array f xs) = length xs"
  using mset_sort_array[of f xs] by (metis size_mset)

lemma sorted_insert_sorted:
  assumes tot: "\<And>a b. 0 < f a b \<Longrightarrow> f b a \<le> 0"
    and trans: "\<And>a b c. f a b \<le> 0 \<Longrightarrow> f b c \<le> 0 \<Longrightarrow> f a c \<le> 0"
    and srt: "sorted_wrt (\<lambda>a b. f a b \<le> 0) ys"
  shows "sorted_wrt (\<lambda>a b. f a b \<le> 0) (insert_sorted f x ys)"
  using srt
proof (induction ys)
  case Nil
  then show ?case by simp
next
  case (Cons y ys)
  show ?case
  proof (cases "f x y \<le> 0")
    case True
    have "\<forall>z\<in>set ys. f x z \<le> 0"
      using Cons.prems True trans by auto
    with True Cons.prems show ?thesis by simp
  next
    case False
    then have "f y x \<le> 0" using tot[of x y] by simp
    with False Cons show ?thesis by (auto simp: set_insert_sorted)
  qed
qed

lemma sorted_sort_array:
  assumes tot: "\<And>a b. 0 < f a b \<Longrightarrow> f b a \<le> 0"
    and trans: "\<And>a b c. f a b \<le> 0 \<Longrightarrow> f b c \<le> 0 \<Longrightarrow> f a c \<le> 0"
  shows "sorted_wrt (\<lambda>a b. f a b \<le> 0) (sort_array f xs)"
  by (induction xs) (simp_all add: sorted_insert_sorted[OF tot trans])

lemma consistent_sign: "consistent_comparator cmp \<Longrightarrow> (cmp a b < 0) = (0 < cmp b a)"
  by (simp add: consistent_comparator_def)

lemma consistent_refl: "consistent_comparator cmp \<Longrightarrow> cmp a a = 0"
  using consistent_sign[of cmp a a] by arith

lemma consistent_trans:
  "consistent_comparator cmp \<Longrightarrow> cmp a b \<le> 0 \<Longrightarrow> cmp b c \<le> 0 \<Longrightarrow> cmp a c \<le> 0"
  unfolding consistent_comparator_def by blast

lemma sorted_by_name:
  assumes "consistent_comparator cmp"
  shows "sorted_wrt (\<lambda>a b. cmp (name a) (name b) \<le> 0) (sort_array (by_name cmp) xs)"
proof -
  have 1: "\<And>a b. 0 < by_name cmp a b \<Longrightarrow> by_name cmp b a \<le> 0"
    using consistent_sign[OF assms] unfolding by_name_def by (simp add: less_imp_le)
  have 2: "\<And>a b c. by_name cmp a b \<le> 0 \<Longrightarrow> by_name cmp b c \<le> 0 \<Longrightarrow> by_name cmp a c \<le> 0"
    using consistent_trans[OF assms] unfolding by_name_def by blast
  show ?thesis using sorted_sort_array[of "by_name cmp", OF 1 2] by (simp add: by_name_def)
qed

subsection \<open>The order of the character codes is a consistent comparator\<close>

lemma code_compare_sign: "(code_compare a b < 0) = (0 < code_compare b a)"
  by (induction a b rule: code_compare.induct) auto

lemma code_compare_trans:
  "code_compare a b \<le> 0 \<Longrightarrow> code_compare b c \<le> 0 \<Longrightarrow> code_compare a c \<le> 0"
proof (induction a b arbitrary: c rule: code_compare.induct)
  case 1
  then show ?case by simp
next
  case (2 b bs)
  then show ?case by (cases c) simp_all
next
  case (3 a as)
  then show ?case by simp
next
  case (4 a as b bs)
  show ?case
  proof (cases c)
    case Nil
    with "4.prems"(2) show ?thesis by simp
  next
    case (Cons d ds)
    define x y z where "x = (of_char a :: nat)" and "y = (of_char b :: nat)" and "z = (of_char d :: nat)"
    have ab: "code_compare (a # as) (b # bs) = (if x < y then - 1 else if y < x then 1 else code_compare as bs)"
      by (simp add: x_def y_def)
    have bd: "code_compare (b # bs) (d # ds) = (if y < z then - 1 else if z < y then 1 else code_compare bs ds)"
      by (simp add: y_def z_def)
    have ad: "code_compare (a # as) (d # ds) = (if x < z then - 1 else if z < x then 1 else code_compare as ds)"
      by (simp add: x_def z_def)
    have xy: "x \<le> y" using "4.prems"(1) unfolding ab by (simp split: if_splits)
    have yz: "y \<le> z" using "4.prems"(2) unfolding Cons bd by (simp split: if_splits)
    show ?thesis
    proof (cases "x < z")
      case True
      then show ?thesis unfolding Cons ad by simp
    next
      case False
      with xy yz have eq: "x = y" "y = z" by simp_all
      have 1: "code_compare as bs \<le> 0" using "4.prems"(1) eq unfolding ab by simp
      have 2: "code_compare bs ds \<le> 0" using "4.prems"(2) eq unfolding Cons bd by simp
      have "code_compare as ds \<le> 0"
        using "4.IH"[of ds] 1 2 eq by (simp add: x_def y_def z_def)
      then show ?thesis unfolding Cons ad using eq by simp
    qed
  qed
qed

lemma consistent_code_compare: "consistent_comparator code_compare"
  unfolding consistent_comparator_def using code_compare_sign code_compare_trans by blast

subsection \<open>Reading the rendered tree\<close>

lemma concat_map_Nil: "(\<And>x. f x = []) \<Longrightarrow> concat (map f xs) = []"
  by (induction xs) simp_all

lemma concat_map_single: "(\<And>x. f x = [g x]) \<Longrightarrow> concat (map f xs) = map g xs"
  by (induction xs) simp_all

lemma row_no_list: "elements_named ''CommandList'' (tenant_row org t) = []"
  by (simp add: tenant_row_def)

lemma trigger_no_list: "elements_named ''CommandList'' (trigger t) = []"
  by (cases t) (simp_all add: trigger_def)

lemma item_no_list: "elements_named ''CommandList'' (new_tenant_item org) = []"
  by (simp add: new_tenant_item_def)

lemma rows_no_list: "concat (map (\<lambda>x. elements_named ''CommandList'' (tenant_row org x)) xs) = []"
  by (rule concat_map_Nil) (rule row_no_list)

lemma rendered_rows_TenantDropdown:
  "rendered_rows (element (TenantDropdown cmp h op)) =
     map (tenant_row (useOrganizationSlug h)) (sort_array (by_name cmp) (fetched h))"
  unfolding rendered_rows_def TenantDropdown_def fetched_def Let_def
  by (simp add: rows_no_list trigger_no_list item_no_list comp_def)

lemma texts_row: "texts (tenant_row org t) = [name t]"
  by (simp add: tenant_row_def)

lemma texts_trigger: "texts (trigger t) = ''Tenant: '' # (case t of None \<Rightarrow> [] | Some t \<Rightarrow> [name (contents t)])"
  by (simp add: trigger_def split: option.splits)

lemma texts_item: "texts (new_tenant_item org) = ['' New tenant'']"
  by (simp add: new_tenant_item_def)

lemma texts_TenantDropdown:
  "texts (element (TenantDropdown cmp h op)) =
     ''Tenant: '' # trigger_name h @ [''No tenant found.''] @
     map name (sort_array (by_name cmp) (fetched h)) @ ['' New tenant'']"
  unfolding TenantDropdown_def fetched_def Let_def trigger_name_def
  by (simp add: texts_trigger texts_item comp_def concat_map_single[of _ name] texts_row)

lemma row_label_row: "row_label (tenant_row org t) = name t"
  by (simp add: row_label_def texts_row)

lemma row_key_row: "row_key (tenant_row org t) = Some (tenant_id t)"
  by (simp add: row_key_def string_prop_def tenant_row_def)

lemma link_to_row: "link_to (tenant_row org t) = Some (''/'' @ org @ ''/'' @ slug t)"
  by (simp add: link_to_def string_prop_def tenant_row_def)

lemma tag_row: "tag (tenant_row org t) = ''Link''"
  by (simp add: tenant_row_def)

lemma links_row: "elements_named ''Link'' (tenant_row org t) = [tenant_row org t]"
  by (simp add: tenant_row_def)

lemma links_trigger: "elements_named ''Link'' (trigger t) = []"
  by (cases t) (simp_all add: trigger_def)

lemma links_item: "elements_named ''Link'' (new_tenant_item org) = children (new_tenant_item org)"
  by (simp add: new_tenant_item_def)

lemma buttons_row: "elements_named ''Button'' (tenant_row org t) = []"
  by (simp add: tenant_row_def)

lemma links_TenantDropdown:
  "elements_named ''Link'' (element (TenantDropdown cmp h op)) =
     map (tenant_row (useOrganizationSlug h)) (sort_array (by_name cmp) (fetched h)) @
     children (new_tenant_item (useOrganizationSlug h))"
  unfolding TenantDropdown_def fetched_def Let_def
  by (simp add: links_trigger links_item comp_def concat_map_single[of _ "tenant_row (useOrganizationSlug h)"] links_row)

lemma new_tenant_links_TenantDropdown:
  "new_tenant_links (element (TenantDropdown cmp h op)) = children (new_tenant_item (useOrganizationSlug h))"
  unfolding new_tenant_links_def links_TenantDropdown
  by (simp add: buttons_row new_tenant_item_def)

lemma command_items_TenantDropdown:
  "command_items (element (TenantDropdown cmp h op)) = [new_tenant_item (useOrganizationSlug h)]"
  unfolding command_items_def TenantDropdown_def Let_def
  by (simp add: trigger_def new_tenant_item_def tenant_row_def concat_map_Nil comp_def split: option.splits)

lemma after_first:
  "sorted_wrt P xs \<Longrightarrow> y \<in> set (dropWhile (\<lambda>x. x \<noteq> b) xs) \<Longrightarrow> y = b \<or> P b y"
  by (induction xs) (auto split: if_splits)

lemma fetched_example: "fetched example_hooks = [tenant_b, tenant_a]"
  by (simp add: fetched_def example_hooks_def)

text \<open>What \<open>appears_before\<close> says of positions.\<close>

lemma appears_before_index:
  assumes "appears_before a b xs" "i < length xs" "j < length xs" "xs ! i = a" "xs ! j = b"
  shows "i < j"
proof (rule ccontr)
  assume "\<not> i < j"
  then have ji: "j \<le> i" by simp
  define k where "k = length (takeWhile (\<lambda>x. x \<noteq> b) xs)"
  have kj: "k \<le> j"
  proof (rule ccontr)
    assume "\<not> k \<le> j"
    then have lt: "j < length (takeWhile (\<lambda>x. x \<noteq> b) xs)" by (simp add: k_def)
    then have "takeWhile (\<lambda>x. x \<noteq> b) xs ! j \<in> set (takeWhile (\<lambda>x. x \<noteq> b) xs)"
      by (rule nth_mem)
    then have "takeWhile (\<lambda>x. x \<noteq> b) xs ! j \<noteq> b" by (auto dest: set_takeWhileD)
    with lt assms(5) show False by (simp add: takeWhile_nth)
  qed
  have "dropWhile (\<lambda>x. x \<noteq> b) xs = drop k xs"
    unfolding k_def by (rule dropWhile_eq_drop)
  moreover have "xs ! i \<in> set (drop k xs)"
  proof -
    have "drop k xs ! (i - k) = xs ! i" using kj ji assms(2) by simp
    moreover have "i - k < length (drop k xs)" using kj ji assms(2) by simp
    ultimately show ?thesis by (metis nth_mem)
  qed
  ultimately show False using assms(1,4) by (simp add: appears_before_def)
qed

subsection \<open>The placeholder of the command menu\<close>

lemma commands_TenantDropdown:
  "elements_named ''Command'' (element (TenantDropdown cmp h op)) =
     [Element ''Command'' []
        [Element ''CommandEmpty'' [] [Text ''No tenant found.''],
         Element ''CommandList'' []
           (map (tenant_row (useOrganizationSlug h)) (sort_array (by_name cmp) (fetched h))),
         new_tenant_item (useOrganizationSlug h)]]"
  unfolding TenantDropdown_def fetched_def Let_def
  by (cases "useTenant h")
     (simp_all add: trigger_def new_tenant_item_def tenant_row_def comp_def concat_map_Nil)

lemma items_of_new_tenant_item:
  "elements_named ''CommandItem'' (new_tenant_item org) = [new_tenant_item org]"
  by (simp add: new_tenant_item_def)

lemma placeholder_never_shown:
  "shown_placeholders (element (TenantDropdown cmp h op)) = []"
  unfolding shown_placeholders_def commands_TenantDropdown
  by (simp add: items_of_new_tenant_item)

lemma placeholder_shown_without_items:
  "shown_placeholders
     (Element ''Command'' []
        [Element ''CommandEmpty'' [] [Text ''No tenant found.''], Element ''CommandList'' [] []]) =
   [''No tenant found.'']"
  by (simp add: shown_placeholders_def)

lemma items_without_rows:
  assumes "fetched h = []"
  shows "elements_named ''CommandItem'' (element (TenantDropdown cmp h op)) =
           [new_tenant_item (useOrganizationSlug h)]"
  using assms unfolding TenantDropdown_def fetched_def Let_def
  by (cases "useTenant h")
     (simp_all add: trigger_def items_of_new_tenant_item split: option.splits)

lemma empties_TenantDropdown:
  "concat (map texts (elements_named ''CommandEmpty'' (element (TenantDropdown cmp h op)))) =
     [''No tenant found.'']"
  unfolding TenantDropdown_def fetched_def Let_def
  by (cases "useTenant h")
     (simp_all add: trigger_def new_tenant_item_def tenant_row_def comp_def concat_map_Nil)

section \<open>The claims\<close>

text \<open>
  C1. The rows are sorted ascending by the display name. For every result of the query
  and any two tenants \<open>A\<close> and \<open>B\<close> of the fetched collection: if the name of \<open>A\<close>
  compares before the name of \<open>B\<close>, the row of \<open>A\<close> appears before the row of \<open>B\<close>;
  and the labels of the rows are in ascending order. \<open>localeCompare\<close> is any consistent
  comparator.
\<close>

theorem rows_sorted_by_name:
  assumes cons: "consistent_comparator localeCompare"
    and A: "A \<in> set (fetched h)" and B: "B \<in> set (fetched h)"
    and lt: "localeCompare (name A) (name B) < 0"
  shows "sorted_wrt (\<lambda>r s. localeCompare (row_label r) (row_label s) \<le> 0)
           (rendered_rows (element (TenantDropdown localeCompare h op))) \<and>
         appears_before (tenant_row (useOrganizationSlug h) A) (tenant_row (useOrganizationSlug h) B)
           (rendered_rows (element (TenantDropdown localeCompare h op)))"
proof -
  define org where "org = useOrganizationSlug h"
  define ss where "ss = sort_array (by_name localeCompare) (fetched h)"
  define P where "P = (\<lambda>r s. localeCompare (row_label r) (row_label s) \<le> 0)"
  have rows: "rendered_rows (element (TenantDropdown localeCompare h op)) = map (tenant_row org) ss"
    by (simp add: rendered_rows_TenantDropdown org_def ss_def)
  have srt: "sorted_wrt P (map (tenant_row org) ss)"
    using sorted_by_name[OF cons, of "fetched h"]
    by (simp add: sorted_wrt_map P_def row_label_row ss_def)
  have inA: "tenant_row org A \<in> set (map (tenant_row org) ss)"
    using A by (simp add: ss_def set_sort_array)
  have inB: "tenant_row org B \<in> set (map (tenant_row org) ss)"
    using B by (simp add: ss_def set_sort_array)
  have notafter: "tenant_row org A \<notin> set (dropWhile (\<lambda>x. x \<noteq> tenant_row org B) (map (tenant_row org) ss))"
  proof
    assume "tenant_row org A \<in> set (dropWhile (\<lambda>x. x \<noteq> tenant_row org B) (map (tenant_row org) ss))"
    from after_first[OF srt this]
    have "tenant_row org A = tenant_row org B \<or> P (tenant_row org B) (tenant_row org A)" .
    then show False
    proof
      assume "tenant_row org A = tenant_row org B"
      then have "row_label (tenant_row org A) = row_label (tenant_row org B)" by simp
      then have "name A = name B" by (simp add: row_label_row)
      with lt consistent_refl[OF cons, of "name B"] show False by simp
    next
      assume "P (tenant_row org B) (tenant_row org A)"
      then have "localeCompare (name B) (name A) \<le> 0" by (simp add: P_def row_label_row)
      with lt consistent_sign[OF cons, of "name A" "name B"] show False by simp
    qed
  qed
  show ?thesis
    unfolding rows appears_before_def org_def[symmetric] P_def[symmetric]
    using srt inA inB notafter by simp
qed

theorem rows_sorted_by_name_witness:
  "consistent_comparator code_compare \<and>
   tenant_a \<in> set (fetched example_hooks) \<and> tenant_b \<in> set (fetched example_hooks) \<and>
   code_compare (name tenant_a) (name tenant_b) < 0 \<and>
   appears_before (tenant_row ''acme'' tenant_a) (tenant_row ''acme'' tenant_b)
     (rendered_rows (element (TenantDropdown code_compare example_hooks False))) \<and>
   rendered_rows (element (TenantDropdown code_compare example_hooks False)) =
     [tenant_row ''acme'' tenant_a, tenant_row ''acme'' tenant_b]"
proof -
  have a: "tenant_a \<in> set (fetched example_hooks)" by (simp add: fetched_example)
  have b: "tenant_b \<in> set (fetched example_hooks)" by (simp add: fetched_example)
  have lt: "code_compare (name tenant_a) (name tenant_b) < 0"
    by (simp add: tenant_a_def tenant_b_def)
  have org: "useOrganizationSlug example_hooks = ''acme''" by (simp add: example_hooks_def)
  have rows: "rendered_rows (element (TenantDropdown code_compare example_hooks False)) =
     [tenant_row ''acme'' tenant_a, tenant_row ''acme'' tenant_b]"
    by (simp add: rendered_rows_TenantDropdown fetched_example org by_name_def tenant_a_def tenant_b_def)
  show ?thesis
    using rows_sorted_by_name[OF consistent_code_compare a b lt, of False] a b lt rows
      consistent_code_compare
    by (simp add: org)
qed

text \<open>
  C2. For every organization slug and every tenant of the fetched collection, the row of
  the tenant is a link to \<^verbatim>\<open>/{org}/{slug}\<close> (the rows, read as pairs of key and
  target, are those of the fetched tenants), and the tree holds exactly one link to the
  creation of a tenant, whose target is \<^verbatim>\<open>/{org}/tenants/new\<close>.
\<close>

theorem link_targets:
  "image_mset (\<lambda>r. (row_key r, link_to r))
       (mset (rendered_rows (element (TenantDropdown localeCompare h op)))) =
     image_mset (\<lambda>t. (Some (tenant_id t), Some (''/'' @ useOrganizationSlug h @ ''/'' @ slug t)))
       (mset (fetched h)) \<and>
   map link_to (new_tenant_links (element (TenantDropdown localeCompare h op))) =
     [Some (''/'' @ useOrganizationSlug h @ ''/tenants/new'')]"
proof -
  have "image_mset (\<lambda>r. (row_key r, link_to r))
       (mset (rendered_rows (element (TenantDropdown localeCompare h op)))) =
     image_mset (\<lambda>t. (Some (tenant_id t), Some (''/'' @ useOrganizationSlug h @ ''/'' @ slug t)))
       (mset (sort_array (by_name localeCompare) (fetched h)))"
    by (simp add: rendered_rows_TenantDropdown multiset.map_comp comp_def row_key_row link_to_row)
  moreover have "map link_to (new_tenant_links (element (TenantDropdown localeCompare h op))) =
     [Some (''/'' @ useOrganizationSlug h @ ''/tenants/new'')]"
    by (simp add: new_tenant_links_TenantDropdown new_tenant_item_def link_to_def string_prop_def)
  ultimately show ?thesis by (simp add: mset_sort_array)
qed

theorem link_targets_witness:
  "map (\<lambda>r. (row_key r, link_to r))
       (rendered_rows (element (TenantDropdown code_compare example_hooks True))) =
     [(Some ''2'', Some ''/acme/alpha''), (Some ''1'', Some ''/acme/beta'')] \<and>
   map link_to (new_tenant_links (element (TenantDropdown code_compare example_hooks True))) =
     [Some ''/acme/tenants/new'']"
proof -
  have org: "useOrganizationSlug example_hooks = ''acme''" by (simp add: example_hooks_def)
  have fetched: "fetched example_hooks = [tenant_b, tenant_a]"
    by (simp add: fetched_def example_hooks_def)
  have rows: "rendered_rows (element (TenantDropdown code_compare example_hooks True)) =
     [tenant_row ''acme'' tenant_a, tenant_row ''acme'' tenant_b]"
    by (simp add: rendered_rows_TenantDropdown fetched org by_name_def tenant_a_def tenant_b_def)
  show ?thesis
    using link_targets[of code_compare example_hooks True]
    by (simp add: org rows row_key_row link_to_row tenant_a_def tenant_b_def)
qed

text \<open>
  C6. The rows are a permutation of the fetched collection: nothing is filtered out or
  dropped, there is one row for each fetched tenant, its key the \<^verbatim>\<open>id\<close> of the tenant
  and its label the \<^verbatim>\<open>name\<close>.
\<close>

theorem rows_are_the_fetched_tenants:
  "mset (rendered_rows (element (TenantDropdown localeCompare h op))) =
     image_mset (tenant_row (useOrganizationSlug h)) (mset (fetched h)) \<and>
   image_mset (\<lambda>r. (row_key r, row_label r))
       (mset (rendered_rows (element (TenantDropdown localeCompare h op)))) =
     image_mset (\<lambda>t. (Some (tenant_id t), name t)) (mset (fetched h)) \<and>
   length (rendered_rows (element (TenantDropdown localeCompare h op))) = length (fetched h)"
proof -
  have rows: "rendered_rows (element (TenantDropdown localeCompare h op)) =
      map (tenant_row (useOrganizationSlug h)) (sort_array (by_name localeCompare) (fetched h))"
    by (rule rendered_rows_TenantDropdown)
  have 1: "mset (rendered_rows (element (TenantDropdown localeCompare h op))) =
     image_mset (tenant_row (useOrganizationSlug h)) (mset (fetched h))"
    unfolding rows by (simp add: mset_sort_array)
  have 2: "image_mset (\<lambda>r. (row_key r, row_label r))
       (mset (rendered_rows (element (TenantDropdown localeCompare h op)))) =
     image_mset (\<lambda>t. (Some (tenant_id t), name t)) (mset (fetched h))"
    unfolding 1 by (simp add: multiset.map_comp comp_def row_key_row row_label_row)
  have 3: "length (rendered_rows (element (TenantDropdown localeCompare h op))) = length (fetched h)"
    unfolding rows by (simp add: length_sort_array)
  show ?thesis using 1 2 3 by simp
qed

text \<open>
  C10. The item that links to \<^verbatim>\<open>/{org}/tenants/new\<close> is rendered whatever the query
  returned, also when it has no data and when the collection is empty: it is the one
  \<^verbatim>\<open>CommandItem\<close> directly under \<^verbatim>\<open>Command\<close>.
\<close>

theorem new_tenant_item_always:
  "command_items (element (TenantDropdown localeCompare h op)) =
     [new_tenant_item (useOrganizationSlug h)] \<and>
   command_items (element (TenantDropdown localeCompare (h\<lparr>listTenants_data := None\<rparr>) op)) =
     [new_tenant_item (useOrganizationSlug h)] \<and>
   command_items (element (TenantDropdown localeCompare (h\<lparr>listTenants_data := Some []\<rparr>) op)) =
     [new_tenant_item (useOrganizationSlug h)] \<and>
   map link_to (elements_named ''Link'' (new_tenant_item (useOrganizationSlug h))) =
     [Some (''/'' @ useOrganizationSlug h @ ''/tenants/new'')] \<and>
   texts (new_tenant_item (useOrganizationSlug h)) = ['' New tenant'']"
  by (simp add: command_items_TenantDropdown texts_item)
     (simp add: new_tenant_item_def link_to_def string_prop_def)

text \<open>
  C3. The claim is that with no data, or with an empty collection, the component shows
  an empty list and surfaces the placeholder \<^verbatim>\<open>No tenant found.\<close>, and nothing
  else about the failure. The list is empty and the tree does hold the placeholder
  (line 44), but the item of lines 54 to 60 is a \<^verbatim>\<open>CommandItem\<close> of the same
  \<^verbatim>\<open>Command\<close>, so the menu is never without an item and the placeholder is not
  displayed: here with the popover open, without data and with the empty collection.
\<close>

theorem placeholder_not_shown_without_data:
  "listTenants_data (example_hooks\<lparr>listTenants_data := None\<rparr>) = None \<and>
   rendered_rows (element (TenantDropdown code_compare (example_hooks\<lparr>listTenants_data := None\<rparr>) True)) = [] \<and>
   concat (map texts (elements_named ''CommandEmpty''
     (element (TenantDropdown code_compare (example_hooks\<lparr>listTenants_data := None\<rparr>) True)))) =
     [''No tenant found.''] \<and>
   elements_named ''CommandItem''
     (element (TenantDropdown code_compare (example_hooks\<lparr>listTenants_data := None\<rparr>) True)) =
     [new_tenant_item ''acme''] \<and>
   shown_placeholders
     (element (TenantDropdown code_compare (example_hooks\<lparr>listTenants_data := None\<rparr>) True)) = [] \<and>
   shown_placeholders
     (element (TenantDropdown code_compare (example_hooks\<lparr>listTenants_data := Some []\<rparr>) True)) = []"
proof -
  define h0 where "h0 = example_hooks\<lparr>listTenants_data := None\<rparr>"
  have f: "fetched h0 = []" by (simp add: h0_def fetched_def)
  have org: "useOrganizationSlug h0 = ''acme''" by (simp add: h0_def example_hooks_def)
  have 1: "listTenants_data h0 = None" by (simp add: h0_def)
  have 2: "rendered_rows (element (TenantDropdown code_compare h0 True)) = []"
    by (simp add: rendered_rows_TenantDropdown f)
  have 3: "elements_named ''CommandItem'' (element (TenantDropdown code_compare h0 True)) =
      [new_tenant_item ''acme'']"
    using items_without_rows[OF f, of code_compare True] by (simp add: org)
  show ?thesis
    using 1 2 3 unfolding h0_def
    by (simp add: empties_TenantDropdown placeholder_never_shown)
qed

text \<open>
  C4. The claim is that a render leaves the collection returned by the query unchanged,
  the order of its elements included. Line 47 sorts that very array in place: with the
  tenants returned in the order \<open>b\<close>, \<open>a\<close>, the array of the query layer holds
  \<open>a\<close>, \<open>b\<close> after the render.
\<close>

theorem render_sorts_the_query_array:
  "listTenants_data example_hooks = Some [tenant_b, tenant_a] \<and>
   query_tenants (TenantDropdown code_compare example_hooks False) = Some [tenant_a, tenant_b] \<and>
   query_tenants (TenantDropdown code_compare example_hooks False) \<noteq> listTenants_data example_hooks"
  by (simp add: TenantDropdown_def Let_def example_hooks_def by_name_def tenant_a_def tenant_b_def)

text \<open>
  C5. Whenever the active tenant of a render is not the one the effect last ran with
  (\<^verbatim>\<open>Object.is\<close> tells them apart), the step ends with the popover closed, whatever
  the flag was before.
\<close>

theorem tenant_change_closes_popover:
  assumes "\<not> object_is (last_deps s) (useTenant h)"
  shows "open' (react_step localeCompare (Render h) s) = False \<and>
         last_deps (react_step localeCompare (Render h) s) = useTenant h"
  using assms by (simp add: Let_def run_effect_def TenantDropdown_def)

theorem tenant_change_closes_popover_witness:
  "\<not> object_is (last_deps \<lparr>open' = True, last_deps = Some (Object 3 tenant_a)\<rparr>) (useTenant example_hooks) \<and>
   open' (react_step code_compare (Render example_hooks) \<lparr>open' = True, last_deps = Some (Object 3 tenant_a)\<rparr>) = False"
  using tenant_change_closes_popover[of "\<lparr>open' = True, last_deps = Some (Object 3 tenant_a)\<rparr>" example_hooks code_compare]
  by (simp add: example_hooks_def)

text \<open>
  C8. On mount the popover is closed, whatever the query and the context return: the
  first render passes \<^verbatim>\<open>open={false}\<close> to the popover, and the flag is false after
  the mount.
\<close>

theorem open_is_false_on_mount:
  "open' (snd (mount localeCompare h)) = False \<and>
   bool_prop ''open'' (element (fst (mount localeCompare h))) = Some False"
  by (simp add: mount_def run_effect_def Let_def TenantDropdown_def bool_prop_def)

text \<open>
  C9. Without an active tenant the render still yields the trigger, and the span of the
  name is empty: the only text of the trigger is its label.
\<close>

theorem trigger_without_tenant:
  assumes "useTenant h = None"
  shows "elements_named ''PopoverTrigger'' (element (TenantDropdown localeCompare h op)) = [trigger None] \<and>
         map children (elements_named ''span'' (trigger None)) = [[Text ''Tenant: ''], [], []] \<and>
         texts (trigger None) = [''Tenant: ''] \<and>
         trigger_name h = []"
proof -
  have 1: "elements_named ''PopoverTrigger'' (element (TenantDropdown localeCompare h op)) = [trigger None]"
    unfolding TenantDropdown_def Let_def
    by (simp add: assms trigger_def new_tenant_item_def tenant_row_def comp_def concat_map_Nil)
  have 2: "map children (elements_named ''span'' (trigger None)) = [[Text ''Tenant: ''], [], []]"
    by (simp add: trigger_def)
  have 3: "texts (trigger None) = [''Tenant: '']" by (simp add: texts_trigger)
  show ?thesis using 1 2 3 assms by (simp add: trigger_name_def)
qed

theorem trigger_without_tenant_witness:
  "useTenant (example_hooks\<lparr>useTenant := None\<rparr>) = None \<and>
   texts (element (TenantDropdown code_compare (example_hooks\<lparr>useTenant := None\<rparr>) False)) =
     [''Tenant: '', ''No tenant found.'', ''a'', ''b'', '' New tenant''] \<and>
   elements_named ''PopoverTrigger'' (element (TenantDropdown code_compare (example_hooks\<lparr>useTenant := None\<rparr>) False)) = [trigger None]"
  using trigger_without_tenant[of "example_hooks\<lparr>useTenant := None\<rparr>" code_compare False]
  by (simp add: texts_TenantDropdown trigger_name_def example_hooks_def fetched_def by_name_def tenant_a_def tenant_b_def)

text \<open>
  Beyond the claims: what the in-place sort of line 47 does to the array of the query
  layer is a permutation. Without data there is no array to touch; with data the array
  holds the same tenant records after the render, in the sorted order.
\<close>

theorem render_permutes_the_query_array:
  "map_option mset (query_tenants (TenantDropdown localeCompare h op)) =
     map_option mset (listTenants_data h)"
  by (cases "listTenants_data h") (simp_all add: TenantDropdown_def Let_def mset_sort_array)

text \<open>
  Beyond the claims: a query without data renders as the empty collection does. There
  are no rows, the tree is the tree of the empty collection, its texts are those of the
  trigger, of the placeholder and of the new-tenant button (no message about an error or
  a retry among them), and the query layer is left as it was.
\<close>

theorem no_data_renders_as_empty_collection:
  assumes "listTenants_data h = None \<or> listTenants_data h = Some []"
  shows "rendered_rows (element (TenantDropdown localeCompare h op)) = [] \<and>
         texts (element (TenantDropdown localeCompare h op)) =
           ''Tenant: '' # trigger_name h @ [''No tenant found.'', '' New tenant''] \<and>
         element (TenantDropdown localeCompare h op) =
           element (TenantDropdown localeCompare (h\<lparr>listTenants_data := Some []\<rparr>) op) \<and>
         query_tenants (TenantDropdown localeCompare h op) = listTenants_data h"
proof -
  from assms have f: "fetched h = []" by (auto simp: fetched_def)
  have 1: "rendered_rows (element (TenantDropdown localeCompare h op)) = []"
    by (simp add: rendered_rows_TenantDropdown f)
  have 2: "texts (element (TenantDropdown localeCompare h op)) =
           ''Tenant: '' # trigger_name h @ [''No tenant found.'', '' New tenant'']"
    by (simp add: texts_TenantDropdown f)
  have 4: "element (TenantDropdown localeCompare h op) =
           element (TenantDropdown localeCompare (h\<lparr>listTenants_data := Some []\<rparr>) op)"
    using assms unfolding TenantDropdown_def Let_def by auto
  have 5: "query_tenants (TenantDropdown localeCompare h op) = listTenants_data h"
    using assms unfolding TenantDropdown_def Let_def by auto
  show ?thesis using 1 2 4 5 by simp
qed

theorem no_data_renders_as_empty_collection_witness:
  "listTenants_data (example_hooks\<lparr>listTenants_data := None\<rparr>) = None \<and>
   rendered_rows (element (TenantDropdown code_compare (example_hooks\<lparr>listTenants_data := None\<rparr>) False)) = [] \<and>
   texts (element (TenantDropdown code_compare (example_hooks\<lparr>listTenants_data := None\<rparr>) False)) =
     [''Tenant: '', ''b'', ''No tenant found.'', '' New tenant'']"
proof -
  define h0 where "h0 = example_hooks\<lparr>listTenants_data := None\<rparr>"
  have d: "listTenants_data h0 = None" by (simp add: h0_def)
  have n: "trigger_name h0 = [''b'']"
    by (simp add: h0_def trigger_name_def example_hooks_def tenant_b_def)
  have "listTenants_data h0 = None \<and>
     rendered_rows (element (TenantDropdown code_compare h0 False)) = [] \<and>
     texts (element (TenantDropdown code_compare h0 False)) =
       [''Tenant: '', ''b'', ''No tenant found.'', '' New tenant'']"
  proof -
    note t = no_data_renders_as_empty_collection[of h0 code_compare False, OF disjI1[OF d]]
    from t have r: "rendered_rows (element (TenantDropdown code_compare h0 False)) = []"
      by (rule conjunct1)
    from t have "texts (element (TenantDropdown code_compare h0 False)) =
        ''Tenant: '' # trigger_name h0 @ [''No tenant found.'', '' New tenant'']"
      by blast
    with d r n show ?thesis by simp
  qed
  then show ?thesis unfolding h0_def .
qed

end
